theory Spec2Isabelle
  imports Main
begin

section \<open>The frontend's tree, as main.cpp consumes it\<close>

text \<open>
  main.cpp talks to libclang through a handful of queries on a cursor: its kind, the line
  of its location, its spelling, the tokens of its extent and its children. A cursor is
  modelled as a node of a finitely branching tree that carries the answers to these
  queries. A token is represented by its spelling, the only thing the program reads of it.
  Every cursor kind that main.cpp never names is \<open>CXCursor_Other\<close> with its numeric code.
\<close>

datatype CXCursorKind =
    CXCursor_IfStmt
  | CXCursor_ForStmt
  | CXCursor_WhileStmt
  | CXCursor_DefaultStmt
  | CXCursor_CaseStmt
  | CXCursor_ConditionalOperator
  | CXCursor_BinaryOperator
  | CXCursor_FunctionDecl
  | CXCursor_Other nat

datatype CXCursor =
  Cursor (cursorKind: CXCursorKind) (cursorLine: nat) (cursorSpelling: string)
         (cursorTokens: "string list") (cursorChildren: "CXCursor list")

text \<open>
  The null cursor (\<open>clang_getNullCursor\<close>) is \<open>None\<close> of \<open>CXCursor option\<close>. Its extent
  is the null range, for which \<open>clang_tokenize\<close> reports zero tokens.
\<close>

definition tokenizeExtent :: "CXCursor option \<Rightarrow> string list" where
  "tokenizeExtent c = (case c of None \<Rightarrow> [] | Some n \<Rightarrow> cursorTokens n)"

text \<open>
  Undefined behaviour of the C++ program is a value of the model: reading a token array
  past its end, and overflow of an \<open>int\<close> (of 32 bits). \<open>int_add\<close> and \<open>int_sub\<close> are
  \<open>+\<close> and \<open>-\<close> on \<open>int\<close>: the mathematical result when it is representable.
\<close>

datatype error = IndexOutOfRange | SignedOverflow

definition INT_MAX :: int where "INT_MAX = 2147483647"

definition INT_MIN :: int where "INT_MIN = - 2147483648"

definition int_add :: "int \<Rightarrow> int \<Rightarrow> error + int" where
  "int_add a b =
     (if INT_MIN \<le> a + b \<and> a + b \<le> INT_MAX then Inr (a + b) else Inl SignedOverflow)"

definition int_sub :: "int \<Rightarrow> int \<Rightarrow> error + int" where
  "int_sub a b =
     (if INT_MIN \<le> a - b \<and> a - b \<le> INT_MAX then Inr (a - b) else Inl SignedOverflow)"

subsection \<open>clang_visitChildren\<close>

text \<open>
  \<open>clang_visitChildren parent visitor data\<close> calls the visitor on the children of
  \<open>parent\<close> from left to right. The visitor's answer steers the walk: \<open>Break\<close> ends it,
  \<open>Continue\<close> goes on with the next sibling without looking below the child, \<open>Recurse\<close>
  walks the child's own children with the same visitor before the next sibling. The
  client data is the state threaded through the calls. No visitor of main.cpp reads its
  \<open>parent\<close> argument, so the model does not pass it. The boolean of \<open>visitCursors\<close>
  tells whether the walk was ended by \<open>Break\<close>.
\<close>

datatype CXChildVisitResult = CXChildVisit_Break | CXChildVisit_Continue | CXChildVisit_Recurse

type_synonym 's CXCursorVisitor = "CXCursor \<Rightarrow> 's \<Rightarrow> error + (CXChildVisitResult \<times> 's)"

fun visitCursor :: "'s CXCursorVisitor \<Rightarrow> CXCursor \<Rightarrow> 's \<Rightarrow> error + (bool \<times> 's)"
  and visitCursors :: "'s CXCursorVisitor \<Rightarrow> CXCursor list \<Rightarrow> 's \<Rightarrow> error + (bool \<times> 's)"
where
  "visitCursor visitor (Cursor k l sp ts cs) s =
     (case visitor (Cursor k l sp ts cs) s of
        Inl e \<Rightarrow> Inl e
      | Inr (CXChildVisit_Break, s') \<Rightarrow> Inr (True, s')
      | Inr (CXChildVisit_Continue, s') \<Rightarrow> Inr (False, s')
      | Inr (CXChildVisit_Recurse, s') \<Rightarrow> visitCursors visitor cs s')"
| "visitCursors visitor [] s = Inr (False, s)"
| "visitCursors visitor (c # cs) s =
     (case visitCursor visitor c s of
        Inl e \<Rightarrow> Inl e
      | Inr (True, s') \<Rightarrow> Inr (True, s')
      | Inr (False, s') \<Rightarrow> visitCursors visitor cs s')"

definition clang_visitChildren :: "CXCursor \<Rightarrow> 's CXCursorVisitor \<Rightarrow> 's \<Rightarrow> error + 's" where
  "clang_visitChildren parent visitor s =
     (case visitCursors visitor (cursorChildren parent) s of
        Inl e \<Rightarrow> Inl e
      | Inr (_, s') \<Rightarrow> Inr s')"

text \<open>
  The cursors that a walk from \<open>n\<close> can reach, in depth-first pre-order: \<open>n\<close> first,
  then the subtree of each child, left to right.
\<close>

fun preorder :: "CXCursor \<Rightarrow> CXCursor list" where
  "preorder (Cursor k l sp ts cs) = Cursor k l sp ts cs # concat (map preorder cs)"

definition descendants :: "CXCursor \<Rightarrow> CXCursor list" where
  "descendants c = concat (map preorder (cursorChildren c))"

text \<open>
  A walk only ever calls its visitor on descendants of the parent. This is what lets a
  visitor call \<open>clang_visitChildren\<close> on the cursor it was handed, with itself as visitor.
\<close>

lemma visit_cong_aux:
  "(\<forall>c \<in> set (preorder n). \<forall>x. f c x = g c x) \<longrightarrow> visitCursor f n s = visitCursor g n s"
  "(\<forall>c \<in> set (concat (map preorder ns)). \<forall>x. f c x = g c x) \<longrightarrow>
     visitCursors f ns s = visitCursors g ns s"
proof (induction f n s and f ns s rule: visitCursor_visitCursors.induct)
  case (1 visitor k l sp ts cs s)
  then show ?case
    by (auto split: sum.splits CXChildVisitResult.splits prod.splits)
next
  case (2 visitor s)
  then show ?case by simp
next
  case (3 visitor c cs s)
  show ?case
  proof
    assume agree: "\<forall>c\<in>set (concat (map preorder (c # cs))). \<forall>x. visitor c x = g c x"
    then have first: "visitCursor visitor c s = visitCursor g c s"
      using 3(1) by simp
    show "visitCursors visitor (c # cs) s = visitCursors g (c # cs) s"
    proof (cases "visitCursor visitor c s")
      case (Inl e)
      then show ?thesis using first by simp
    next
      case (Inr r)
      obtain b s' where r: "r = (b, s')" by (cases r)
      show ?thesis
      proof (cases b)
        case True
        then show ?thesis using Inr r first by simp
      next
        case False
        have "visitCursors visitor cs s' = visitCursors g cs s'"
          using 3(2)[OF Inr r[symmetric]] False agree by simp
        then show ?thesis using Inr r first False by simp
      qed
    qed
  qed
qed

lemma clang_visitChildren_cong [fundef_cong]:
  assumes "p = p'" "s = s'" "\<And>c x. c \<in> set (descendants p') \<Longrightarrow> f c x = g c x"
  shows "clang_visitChildren p f s = clang_visitChildren p' g s'"
  using assms visit_cong_aux(2)[of "cursorChildren p'" f g s']
  by (simp add: clang_visitChildren_def descendants_def)

lemma size_preorder: "c \<in> set (preorder n) \<Longrightarrow> size c \<le> size n"
  by (induction n rule: preorder.induct)
     (fastforce simp: less_Suc_eq_le dest: size_list_estimation')

lemma size_descendants: "c \<in> set (descendants n) \<Longrightarrow> size c < size n"
proof -
  assume "c \<in> set (descendants n)"
  then obtain ch where ch: "ch \<in> set (cursorChildren n)" "c \<in> set (preorder ch)"
    by (auto simp: descendants_def)
  have "size ch < size n"
    using ch(1) by (cases n) (auto simp: less_Suc_eq_le dest: size_list_estimation')
  with size_preorder[OF ch(2)] show ?thesis by simp
qed

section \<open>The operator resolver\<close>

text \<open>
  \<open>getFirstChild\<close> starts from the null cursor and walks the children with a visitor
  that stores the cursor it is given and breaks. The visitor has no failing branch.
\<close>

definition getFirstChild :: "CXCursor \<Rightarrow> CXCursor option" where
  "getFirstChild parentCursor =
     (case clang_visitChildren parentCursor
             (\<lambda>c cursor. Inr (CXChildVisit_Break, Some c)) None of
        Inl e \<Rightarrow> None
      | Inr childCursor \<Rightarrow> childCursor)"

text \<open>
  \<open>getBinaryOperator\<close> reads \<open>expressionTokens[numLeftHandSideTokens]\<close> with no
  comparison against \<open>numExpressionTokens\<close>; the read past the end is the model's
  \<open>IndexOutOfRange\<close>. The translation unit argument only serves the tokenizer, whose
  answers the cursors carry.
\<close>

definition getBinaryOperator :: "CXCursor \<Rightarrow> error + string" where
  "getBinaryOperator expressionCursor =
     (let expressionTokens = tokenizeExtent (Some expressionCursor);
          leftHandSideCursor = getFirstChild expressionCursor;
          numLeftHandSideTokens = length (tokenizeExtent leftHandSideCursor)
      in if numLeftHandSideTokens < length expressionTokens
         then Inr (expressionTokens ! numLeftHandSideTokens)
         else Inl IndexOutOfRange)"

section \<open>Classifier, traversal and calculator\<close>

record EdgeAndNodeCounter =
  edges :: int
  nodes :: int

definition decision_kinds :: "CXCursorKind list" where
  "decision_kinds =
     [CXCursor_IfStmt, CXCursor_ForStmt, CXCursor_WhileStmt,
      CXCursor_DefaultStmt, CXCursor_CaseStmt,
      CXCursor_ConditionalOperator, CXCursor_BinaryOperator]"

text \<open>The two statements \<open>counter->edges += 2; counter->nodes += 1;\<close>.\<close>

definition addDecision :: "EdgeAndNodeCounter \<Rightarrow> error + EdgeAndNodeCounter" where
  "addDecision counter =
     (case int_add (edges counter) 2 of
        Inl e \<Rightarrow> Inl e
      | Inr edges' \<Rightarrow>
          (case int_add (nodes counter) 1 of
             Inl e \<Rightarrow> Inl e
           | Inr nodes' \<Rightarrow> Inr (counter\<lparr>edges := edges', nodes := nodes'\<rparr>)))"

text \<open>
  The body of \<open>countEdgesAndNodesCallback\<close> up to its call of \<open>clang_visitChildren\<close>:
  what one cursor adds to the counter.
\<close>

definition classifyCursor :: "CXCursor \<Rightarrow> EdgeAndNodeCounter \<Rightarrow> error + EdgeAndNodeCounter" where
  "classifyCursor cursor counter =
     (if cursorKind cursor \<in> set decision_kinds then
        if cursorKind cursor = CXCursor_BinaryOperator then
          (case getBinaryOperator cursor of
             Inl e \<Rightarrow> Inl e
           | Inr operatorSymbol \<Rightarrow>
               if operatorSymbol = ''&&'' \<or> operatorSymbol = ''||''
               then addDecision counter
               else Inr counter)
        else addDecision counter
      else Inr counter)"

function countEdgesAndNodesCallback ::
  "CXCursor \<Rightarrow> EdgeAndNodeCounter \<Rightarrow> error + (CXChildVisitResult \<times> EdgeAndNodeCounter)"
where
  "countEdgesAndNodesCallback cursor counter =
     (case classifyCursor cursor counter of
        Inl e \<Rightarrow> Inl e
      | Inr counter' \<Rightarrow>
          (case clang_visitChildren cursor countEdgesAndNodesCallback counter' of
             Inl e \<Rightarrow> Inl e
           | Inr counter'' \<Rightarrow> Inr (CXChildVisit_Continue, counter'')))"
  by pat_completeness auto
termination
  by (relation "measure (\<lambda>(c, s). size c)") (simp_all add: size_descendants)

declare countEdgesAndNodesCallback.simps [simp del]

definition countEdgesAndNodes :: "CXCursor \<Rightarrow> error + (int \<times> int)" where
  "countEdgesAndNodes cursor =
     (case countEdgesAndNodesCallback cursor \<lparr>edges = 0, nodes = 0\<rparr> of
        Inl e \<Rightarrow> Inl e
      | Inr (_, counter) \<Rightarrow> Inr (edges counter, nodes counter))"

definition computeCyclomaticComplexity :: "CXCursor \<Rightarrow> error + int" where
  "computeCyclomaticComplexity cursor =
     (case countEdgesAndNodes cursor of
        Inl e \<Rightarrow> Inl e
      | Inr counts \<Rightarrow>
          (case int_add (snd counts) 1 of
             Inl e \<Rightarrow> Inl e
           | Inr n \<Rightarrow>
               (case int_sub (fst counts) n of
                  Inl e \<Rightarrow> Inl e
                | Inr d \<Rightarrow> int_add d 2)))"

section \<open>Driver, report and process\<close>

text \<open>
  What the process changes outside itself: the file \<open>output.cy\<close> (\<open>None\<close> while it
  does not exist) and what has been written to the error channel.
\<close>

record world =
  output_cy :: "string option"
  cerr :: string

text \<open>The decimal text that \<open>operator<<\<close> writes for an \<open>unsigned\<close> and for an \<open>int\<close>.\<close>

fun show_nat :: "nat \<Rightarrow> string" where
  "show_nat n =
     (if n < 10 then [''0123456789'' ! n]
      else show_nat (n div 10) @ [''0123456789'' ! (n mod 10)])"

declare show_nat.simps [simp del]

definition show_int :: "int \<Rightarrow> string" where
  "show_int i = (if i < 0 then CHR ''-'' # show_nat (nat (- i)) else show_nat (nat i))"

text \<open>Opening \<open>output.cy\<close> in append mode creates it when it is missing.\<close>

definition appendOutput :: "string \<Rightarrow> world \<Rightarrow> world" where
  "appendOutput text w =
     w\<lparr>output_cy := Some ((case output_cy w of None \<Rightarrow> [] | Some old \<Rightarrow> old) @ text)\<rparr>"

text \<open>
  The text of one record:
  \<open>outputFile << line << " " << functionNameStr << " " << complexity << std::endl\<close>.
\<close>

definition reportLine :: "CXCursor \<Rightarrow> int \<Rightarrow> string" where
  "reportLine cursor complexity =
     show_nat (cursorLine cursor) @ '' '' @ cursorSpelling cursor @ '' '' @
     show_int complexity @ [CHR 0x0A]"

definition visitChildren_callback :: "CXCursor \<Rightarrow> world \<Rightarrow> error + (CXChildVisitResult \<times> world)" where
  "visitChildren_callback cursor w =
     (if cursorKind cursor = CXCursor_FunctionDecl then
        (case computeCyclomaticComplexity cursor of
           Inl e \<Rightarrow> Inl e
         | Inr complexity \<Rightarrow>
             Inr (CXChildVisit_Continue, appendOutput (reportLine cursor complexity) w))
      else Inr (CXChildVisit_Continue, w))"

definition visitChildren :: "CXCursor \<Rightarrow> world \<Rightarrow> error + world" where
  "visitChildren root_cursor w = clang_visitChildren root_cursor visitChildren_callback w"

text \<open>
  The parser is the frontend's: \<open>clang_parseTranslationUnit2\<close> is a parameter of the
  model, a function from the source text to an error code and a translation unit. A
  translation unit is represented by its root cursor, which is all that \<open>main\<close> asks
  of it. \<open>exit(1)\<close> is the left result of \<open>parseTranslationUnit\<close>: the status and the
  world the process leaves behind.
\<close>

datatype CXErrorCode =
    CXError_Success
  | CXError_Failure
  | CXError_Crashed
  | CXError_InvalidArguments
  | CXError_ASTReadError

type_synonym frontend = "string \<Rightarrow> CXErrorCode \<times> CXCursor"

definition parseTranslationUnit :: "frontend \<Rightarrow> string \<Rightarrow> world \<Rightarrow> (int \<times> world) + CXCursor" where
  "parseTranslationUnit clang_parseTranslationUnit2 code w =
     (case clang_parseTranslationUnit2 code of
        (error, TU) \<Rightarrow>
          if error \<noteq> CXError_Success
          then Inl (1, w\<lparr>cerr := cerr w @ ''Error: Unable to parse translation unit.'' @ [CHR 0x0A]\<rparr>)
          else Inr TU)"

text \<open>
  \<open>main\<close> takes the frontend, the text on standard input and the world it starts in.
  It ends in undefined behaviour (\<open>Inl\<close>) or with an exit status and a world.
\<close>

definition main :: "frontend \<Rightarrow> string \<Rightarrow> world \<Rightarrow> error + (int \<times> world)" where
  "main clang_parseTranslationUnit2 code w =
     (let w1 = w\<lparr>output_cy := Some []\<rparr> in
      case parseTranslationUnit clang_parseTranslationUnit2 code w1 of
        Inl exited \<Rightarrow> Inr exited
      | Inr root_cursor \<Rightarrow>
          (case visitChildren root_cursor w1 of
             Inl e \<Rightarrow> Inl e
           | Inr w2 \<Rightarrow> Inr (0, w2)))"

section \<open>Vocabulary of the properties\<close>

text \<open>
  \<open>forEachCursor step cs\<close> runs \<open>step\<close> on the cursors of \<open>cs\<close> from left to right,
  threading the state and stopping at the first failure.
\<close>

fun forEachCursor :: "(CXCursor \<Rightarrow> 's \<Rightarrow> error + 's) \<Rightarrow> CXCursor list \<Rightarrow> 's \<Rightarrow> error + 's" where
  "forEachCursor step [] s = Inr s"
| "forEachCursor step (c # cs) s =
     (case step c s of Inl e \<Rightarrow> Inl e | Inr s' \<Rightarrow> forEachCursor step cs s')"

text \<open>
  A simple decision point is a cursor of one of the six kinds that count on their own.
  A logical operator is a binary operator that \<open>getBinaryOperator\<close> resolves to
  \<open>&&\<close> or \<open>||\<close>. A binary operator is resolvable when the read of
  \<open>getBinaryOperator\<close> stays within the expression's tokens.
\<close>

definition simpleDecisionPoint :: "CXCursor \<Rightarrow> bool" where
  "simpleDecisionPoint n =
     (cursorKind n \<in> set [CXCursor_IfStmt, CXCursor_ForStmt, CXCursor_WhileStmt,
                            CXCursor_DefaultStmt, CXCursor_CaseStmt, CXCursor_ConditionalOperator])"

definition logicalOperator :: "CXCursor \<Rightarrow> bool" where
  "logicalOperator n =
     (cursorKind n = CXCursor_BinaryOperator \<and>
      (getBinaryOperator n = Inr ''&&'' \<or> getBinaryOperator n = Inr ''||''))"

definition decisionPoint :: "CXCursor \<Rightarrow> bool" where
  "decisionPoint n = (simpleDecisionPoint n \<or> logicalOperator n)"

definition resolvable :: "CXCursor \<Rightarrow> bool" where
  "resolvable n =
     (cursorKind n = CXCursor_BinaryOperator \<longrightarrow>
        length (tokenizeExtent (getFirstChild n)) < length (cursorTokens n))"

definition countOf :: "(CXCursor \<Rightarrow> bool) \<Rightarrow> CXCursor list \<Rightarrow> int" where
  "countOf P ns = int (length (filter P ns))"

definition decisionPoints :: "CXCursor \<Rightarrow> int" where
  "decisionPoints f = countOf decisionPoint (preorder f)"

definition isFunctionDecl :: "CXCursor \<Rightarrow> bool" where
  "isFunctionDecl c = (cursorKind c = CXCursor_FunctionDecl)"

definition topLevelFunctions :: "CXCursor \<Rightarrow> CXCursor list" where
  "topLevelFunctions root_cursor = filter isFunctionDecl (cursorChildren root_cursor)"

text \<open>The report for the cursors \<open>fs\<close> with the complexities \<open>ks\<close>, one record each.\<close>

definition reportOf :: "CXCursor list \<Rightarrow> int list \<Rightarrow> string" where
  "reportOf fs ks = concat (map2 reportLine fs ks)"

text \<open>What \<open>visitChildren_callback\<close> does to the world, its constant answer left out.\<close>

definition reportStep :: "CXCursor \<Rightarrow> world \<Rightarrow> error + world" where
  "reportStep cursor w =
     (if cursorKind cursor = CXCursor_FunctionDecl then
        (case computeCyclomaticComplexity cursor of
           Inl e \<Rightarrow> Inl e
         | Inr complexity \<Rightarrow> Inr (appendOutput (reportLine cursor complexity) w))
      else Inr w)"

section \<open>Example trees\<close>

text \<open>
  Trees as libclang presents them for small C sources. Kinds that main.cpp does not name
  carry libclang's numbers: 10 a parameter declaration, 100 an unexposed expression (here an
  implicit cast), 101 a reference to a declaration, 106 an integer literal, 202 a compound
  statement, 214 a return statement, 231 a declaration statement, 350 a translation unit.
\<close>

text \<open>The operand \<open>x\<close> of \<open>x + 1\<close>.\<close>

definition x_operand :: CXCursor where
  "x_operand =
     Cursor (CXCursor_Other 100) 1 ''x''
       [''x'']
       [Cursor (CXCursor_Other 101) 1 ''x'' [''x''] []]"

text \<open>The expression \<open>x + 1\<close>.\<close>

definition x_plus_1 :: CXCursor where
  "x_plus_1 =
     Cursor CXCursor_BinaryOperator 1 []
       [''x'', ''+'', ''1'']
       [x_operand,
        Cursor (CXCursor_Other 106) 1 [] [''1''] []]"

text \<open>\<open>int f(int x){ return x + 1; }\<close>\<close>

definition return_x_plus_1 :: CXCursor where
  "return_x_plus_1 =
     Cursor CXCursor_FunctionDecl 1 ''f''
       [''int'', ''f'', ''('', ''int'', ''x'', '')'', ''{'', ''return'', ''x'', ''+'', ''1'',
        '';'', ''}'']
       [Cursor (CXCursor_Other 10) 1 ''x'' [''int'', ''x''] [],
        Cursor (CXCursor_Other 202) 1 []
          [''{'', ''return'', ''x'', ''+'', ''1'', '';'', ''}'']
          [Cursor (CXCursor_Other 214) 1 []
             [''return'', ''x'', ''+'', ''1'']
             [x_plus_1]]]"

text \<open>The statement \<open>if (b) {}\<close>.\<close>

definition inner_if :: CXCursor where
  "inner_if =
     Cursor CXCursor_IfStmt 1 []
       [''if'', ''('', ''b'', '')'', ''{'', ''}'']
       [Cursor (CXCursor_Other 100) 1 ''b''
          [''b'']
          [Cursor (CXCursor_Other 101) 1 ''b'' [''b''] []],
        Cursor (CXCursor_Other 202) 1 [] [''{'', ''}''] []]"

text \<open>\<open>void g(int a, int b){ if (a) { if (b) {} } }\<close>\<close>

definition nested_if :: CXCursor where
  "nested_if =
     Cursor CXCursor_FunctionDecl 1 ''g''
       [''void'', ''g'', ''('', ''int'', ''a'', '','', ''int'', ''b'', '')'', ''{'', ''if'',
        ''('', ''a'', '')'', ''{'', ''if'', ''('', ''b'', '')'', ''{'', ''}'', ''}'', ''}'']
       [Cursor (CXCursor_Other 10) 1 ''a'' [''int'', ''a''] [],
        Cursor (CXCursor_Other 10) 1 ''b'' [''int'', ''b''] [],
        Cursor (CXCursor_Other 202) 1 []
          [''{'', ''if'', ''('', ''a'', '')'', ''{'', ''if'', ''('', ''b'', '')'', ''{'',
           ''}'', ''}'', ''}'']
          [Cursor CXCursor_IfStmt 1 []
             [''if'', ''('', ''a'', '')'', ''{'', ''if'', ''('', ''b'', '')'', ''{'', ''}'',
              ''}'']
             [Cursor (CXCursor_Other 100) 1 ''a''
                [''a'']
                [Cursor (CXCursor_Other 101) 1 ''a'' [''a''] []],
              Cursor (CXCursor_Other 202) 1 []
                [''{'', ''if'', ''('', ''b'', '')'', ''{'', ''}'', ''}'']
                [inner_if]]]]"

text \<open>\<open>void h(int a, int b, int c){ if (a && b || c) {} }\<close>, on line 3.\<close>

definition short_circuit :: CXCursor where
  "short_circuit =
     Cursor CXCursor_FunctionDecl 3 ''h''
       [''void'', ''h'', ''('', ''int'', ''a'', '','', ''int'', ''b'', '','', ''int'', ''c'',
        '')'', ''{'', ''if'', ''('', ''a'', ''&&'', ''b'', ''||'', ''c'', '')'', ''{'', ''}'',
        ''}'']
       [Cursor (CXCursor_Other 10) 3 ''a'' [''int'', ''a''] [],
        Cursor (CXCursor_Other 10) 3 ''b'' [''int'', ''b''] [],
        Cursor (CXCursor_Other 10) 3 ''c'' [''int'', ''c''] [],
        Cursor (CXCursor_Other 202) 3 []
          [''{'', ''if'', ''('', ''a'', ''&&'', ''b'', ''||'', ''c'', '')'', ''{'', ''}'',
           ''}'']
          [Cursor CXCursor_IfStmt 3 []
             [''if'', ''('', ''a'', ''&&'', ''b'', ''||'', ''c'', '')'', ''{'', ''}'']
             [Cursor CXCursor_BinaryOperator 3 []
                [''a'', ''&&'', ''b'', ''||'', ''c'']
                [Cursor CXCursor_BinaryOperator 3 []
                   [''a'', ''&&'', ''b'']
                   [Cursor (CXCursor_Other 100) 3 ''a''
                      [''a'']
                      [Cursor (CXCursor_Other 101) 3 ''a'' [''a''] []],
                    Cursor (CXCursor_Other 100) 3 ''b''
                      [''b'']
                      [Cursor (CXCursor_Other 101) 3 ''b'' [''b''] []]],
                 Cursor (CXCursor_Other 100) 3 ''c''
                   [''c'']
                   [Cursor (CXCursor_Other 101) 3 ''c'' [''c''] []]],
              Cursor (CXCursor_Other 202) 3 [] [''{'', ''}''] []]]]"

text \<open>A binary operator without children and without tokens, and a function around it.\<close>

definition degenerate_operator :: CXCursor where
  "degenerate_operator = Cursor CXCursor_BinaryOperator 1 [] [] []"

definition degenerate_function :: CXCursor where
  "degenerate_function =
     Cursor CXCursor_FunctionDecl 1 ''d'' []
       [Cursor (CXCursor_Other 202) 1 [] [] [degenerate_operator]]"

text \<open>
  The translation unit of \<open>void f(void) { int g(int); }\<close>: the declaration of \<open>g\<close> is a
  function declaration cursor three levels below the function \<open>f\<close>.
\<close>

definition block_scope_declaration :: CXCursor where
  "block_scope_declaration =
     Cursor (CXCursor_Other 350) 0 ''unsaved.c''
       [''void'', ''f'', ''('', ''void'', '')'', ''{'', ''int'', ''g'', ''('', ''int'', '')'',
        '';'', ''}'']
       [Cursor CXCursor_FunctionDecl 1 ''f''
          [''void'', ''f'', ''('', ''void'', '')'', ''{'', ''int'', ''g'', ''('', ''int'',
           '')'', '';'', ''}'']
          [Cursor (CXCursor_Other 202) 1 []
             [''{'', ''int'', ''g'', ''('', ''int'', '')'', '';'', ''}'']
             [Cursor (CXCursor_Other 231) 1 []
                [''int'', ''g'', ''('', ''int'', '')'', '';'']
                [Cursor CXCursor_FunctionDecl 1 ''g''
                   [''int'', ''g'', ''('', ''int'', '')'']
                   [Cursor (CXCursor_Other 10) 1 [] [''int''] []]]]]]"

text \<open>A translation unit with the functions \<open>f\<close> and \<open>h\<close> at top level.\<close>

definition two_functions :: CXCursor where
  "two_functions =
     Cursor (CXCursor_Other 350) 0 ''unsaved.c''
       (cursorTokens return_x_plus_1 @ cursorTokens short_circuit)
       [return_x_plus_1, short_circuit]"

text \<open>Frontends: one for each translation unit above, and one that fails.\<close>

definition two_functions_frontend :: frontend where
  "two_functions_frontend code = (CXError_Success, two_functions)"

definition block_scope_frontend :: frontend where
  "block_scope_frontend code = (CXError_Success, block_scope_declaration)"

definition failing_frontend :: frontend where
  "failing_frontend code = (CXError_Failure, Cursor (CXCursor_Other 350) 0 [] [] [])"

section \<open>The traversal as a loop over the pre-order listing\<close>

lemma forEachCursor_append:
  "forEachCursor step (xs @ ys) s =
     (case forEachCursor step xs s of Inl e \<Rightarrow> Inl e | Inr s' \<Rightarrow> forEachCursor step ys s')"
  by (induction xs arbitrary: s) (auto split: sum.splits)

lemma forEachCursor_concat:
  "forEachCursor (\<lambda>c. forEachCursor step (sub c)) cs s = forEachCursor step (concat (map sub cs)) s"
  by (induction cs arbitrary: s) (auto simp: forEachCursor_append split: sum.splits)

lemma forEachCursor_cong:
  "(\<And>c x. c \<in> set cs \<Longrightarrow> f c x = g c x) \<Longrightarrow> forEachCursor f cs s = forEachCursor g cs s"
  by (induction cs arbitrary: s) (auto split: sum.splits)

lemma visitCursors_Continue:
  assumes "\<And>c x. c \<in> set cs \<Longrightarrow>
             visitor c x = (case step c x of Inl e \<Rightarrow> Inl e | Inr s' \<Rightarrow> Inr (CXChildVisit_Continue, s'))"
  shows "visitCursors visitor cs s =
           (case forEachCursor step cs s of Inl e \<Rightarrow> Inl e | Inr s' \<Rightarrow> Inr (False, s'))"
  using assms
proof (induction cs arbitrary: s)
  case Nil
  then show ?case by simp
next
  case (Cons c cs)
  have c: "visitCursor visitor c s = (case step c s of Inl e \<Rightarrow> Inl e | Inr s' \<Rightarrow> Inr (False, s'))"
    using Cons.prems[of c s] by (cases c) (auto split: sum.splits)
  show ?case
    using Cons.IH Cons.prems c by (auto split: sum.splits)
qed

lemma clang_visitChildren_Continue:
  assumes "\<And>c x. c \<in> set (cursorChildren p) \<Longrightarrow>
             visitor c x = (case step c x of Inl e \<Rightarrow> Inl e | Inr s' \<Rightarrow> Inr (CXChildVisit_Continue, s'))"
  shows "clang_visitChildren p visitor s = forEachCursor step (cursorChildren p) s"
  using visitCursors_Continue[of "cursorChildren p" visitor step s, OF assms]
  by (auto simp: clang_visitChildren_def split: sum.splits)

lemma preorder_self: "c \<in> set (preorder c)"
  by (cases c) simp

lemma children_descendants: "c \<in> set (cursorChildren p) \<Longrightarrow> c \<in> set (descendants p)"
  using preorder_self by (auto simp: descendants_def)

lemma preorder_unfold: "preorder n = n # descendants n"
  by (cases n) (simp add: descendants_def)

lemma countEdgesAndNodesCallback_preorder:
  "countEdgesAndNodesCallback n s =
     (case forEachCursor classifyCursor (preorder n) s of
        Inl e \<Rightarrow> Inl e
      | Inr s' \<Rightarrow> Inr (CXChildVisit_Continue, s'))"
proof (induction n s rule: countEdgesAndNodesCallback.induct)
  case (1 cursor counter)
  show ?case
  proof (cases "classifyCursor cursor counter")
    case (Inl e)
    then show ?thesis
      by (simp add: countEdgesAndNodesCallback.simps[of cursor] preorder_unfold[of cursor])
  next
    case (Inr counter')
    have "clang_visitChildren cursor countEdgesAndNodesCallback counter' =
            forEachCursor (\<lambda>c. forEachCursor classifyCursor (preorder c)) (cursorChildren cursor) counter'"
      by (rule clang_visitChildren_Continue) (simp add: 1[OF Inr] children_descendants)
    then show ?thesis
      using Inr
      by (simp add: countEdgesAndNodesCallback.simps[of cursor] preorder_unfold[of cursor]
                    forEachCursor_concat descendants_def)
  qed
qed

section \<open>Counting decision points\<close>

lemma countOf_simps [simp]:
  "countOf P [] = 0"
  "countOf P (n # ns) = (if P n then 1 else 0) + countOf P ns"
  by (simp_all add: countOf_def)

lemma countOf_nonneg: "0 \<le> countOf P ns"
  by (simp add: countOf_def)

lemma countOf_decisionPoint:
  "countOf decisionPoint ns = countOf simpleDecisionPoint ns + countOf logicalOperator ns"
  by (induction ns) (auto simp: decisionPoint_def simpleDecisionPoint_def logicalOperator_def)

lemma getFirstChild_Nil: "cursorChildren n = [] \<Longrightarrow> getFirstChild n = None"
  by (simp add: getFirstChild_def clang_visitChildren_def)

lemma getFirstChild_Cons: "cursorChildren n = l # rest \<Longrightarrow> getFirstChild n = Some l"
  by (cases l) (simp add: getFirstChild_def clang_visitChildren_def)

lemma getBinaryOperator_Inl:
  "getBinaryOperator n = Inl e \<longleftrightarrow>
     e = IndexOutOfRange \<and> length (cursorTokens n) \<le> length (tokenizeExtent (getFirstChild n))"
  by (auto simp: getBinaryOperator_def tokenizeExtent_def Let_def)

lemma classifyCursor_eq:
  "classifyCursor n s =
     (if \<not> resolvable n then Inl IndexOutOfRange
      else if decisionPoint n then addDecision s else Inr s)"
  by (cases "getBinaryOperator n")
     (auto simp: classifyCursor_def resolvable_def decisionPoint_def simpleDecisionPoint_def
                 logicalOperator_def decision_kinds_def getBinaryOperator_Inl
                 getBinaryOperator_def Let_def tokenizeExtent_def)

lemma classifyCursor_first:
  "classifyCursor n s = Inl e \<Longrightarrow> countEdgesAndNodesCallback n s = Inl e"
  by (simp add: countEdgesAndNodesCallback.simps[of n])

lemma addDecision_eq:
  "addDecision s =
     (if INT_MIN \<le> edges s + 2 \<and> edges s + 2 \<le> INT_MAX \<and>
         INT_MIN \<le> nodes s + 1 \<and> nodes s + 1 \<le> INT_MAX
      then Inr (s\<lparr>edges := edges s + 2, nodes := nodes s + 1\<rparr>)
      else Inl SignedOverflow)"
  by (auto simp: addDecision_def int_add_def)

lemma classifyCursor_step:
  "classifyCursor n counter = Inr counter' \<Longrightarrow>
     counter' = counter \<or>
     counter' = counter\<lparr>edges := edges counter + 2, nodes := nodes counter + 1\<rparr>"
  by (auto simp: classifyCursor_eq addDecision_eq split: if_splits)

lemma forEach_classify_iff:
  assumes "0 \<le> nodes s" "nodes s \<le> edges s" "edges s \<le> INT_MAX"
  shows "forEachCursor classifyCursor ns s = Inr s' \<longleftrightarrow>
           (\<forall>n \<in> set ns. resolvable n) \<and>
           edges s + 2 * countOf decisionPoint ns \<le> INT_MAX \<and>
           s' = s\<lparr>edges := edges s + 2 * countOf decisionPoint ns,
                  nodes := nodes s + countOf decisionPoint ns\<rparr>"
  using assms
proof (induction ns arbitrary: s)
  case Nil
  then show ?case by auto
next
  case (Cons n ns)
  have k: "0 \<le> countOf decisionPoint ns" by (rule countOf_nonneg)
  show ?case
  proof (cases "resolvable n")
    case False
    then have "classifyCursor n s = Inl IndexOutOfRange"
      by (simp add: classifyCursor_eq)
    then show ?thesis using False by simp
  next
    case res: True
    show ?thesis
    proof (cases "decisionPoint n")
      case False
      then have "classifyCursor n s = Inr s"
        using res by (simp add: classifyCursor_eq)
      then show ?thesis
        using res False Cons.IH[OF Cons.prems] by simp
    next
      case dp: True
      have step: "classifyCursor n s = addDecision s"
        using res dp by (simp add: classifyCursor_eq)
      show ?thesis
      proof (cases "edges s + 2 \<le> INT_MAX")
        case False
        then have "addDecision s = Inl SignedOverflow"
          by (simp add: addDecision_eq)
        then show ?thesis
          using res dp False k step by simp
      next
        case True
        let ?s1 = "s\<lparr>edges := edges s + 2, nodes := nodes s + 1\<rparr>"
        have ok: "addDecision s = Inr ?s1"
          using True Cons.prems by (simp add: addDecision_eq INT_MIN_def INT_MAX_def)
        have "forEachCursor classifyCursor ns ?s1 = Inr s' \<longleftrightarrow>
                (\<forall>n \<in> set ns. resolvable n) \<and>
                edges ?s1 + 2 * countOf decisionPoint ns \<le> INT_MAX \<and>
                s' = ?s1\<lparr>edges := edges ?s1 + 2 * countOf decisionPoint ns,
                          nodes := nodes ?s1 + countOf decisionPoint ns\<rparr>"
          using True Cons.prems by (intro Cons.IH) simp_all
        then show ?thesis
          using res dp ok step by (simp add: algebra_simps)
      qed
    qed
  qed
qed

lemma forEach_classify_invariant:
  "forEachCursor classifyCursor ns counter = Inr counter' \<Longrightarrow>
     edges counter = 2 * nodes counter \<Longrightarrow> edges counter' = 2 * nodes counter'"
proof (induction ns arbitrary: counter)
  case Nil
  then show ?case by simp
next
  case (Cons n ns)
  from Cons.prems(1) obtain mid where
    mid: "classifyCursor n counter = Inr mid" "forEachCursor classifyCursor ns mid = Inr counter'"
    by (auto split: sum.splits)
  have "edges mid = 2 * nodes mid"
    using classifyCursor_step[OF mid(1)] Cons.prems(2) by auto
  then show ?case using Cons.IH[OF mid(2)] by simp
qed

lemma forEach_from_zero:
  "forEachCursor classifyCursor (preorder f) \<lparr>edges = 0, nodes = 0\<rparr> = Inr s' \<longleftrightarrow>
     (\<forall>n \<in> set (preorder f). resolvable n) \<and> 2 * decisionPoints f \<le> INT_MAX \<and>
     s' = \<lparr>edges = 2 * decisionPoints f, nodes = decisionPoints f\<rparr>"
proof -
  have "(0::int) \<le> INT_MAX" by (simp add: INT_MAX_def)
  then show ?thesis
    using forEach_classify_iff[of "\<lparr>edges = 0, nodes = 0\<rparr>" "preorder f" s']
    by (simp add: decisionPoints_def)
qed

lemma countEdgesAndNodes_iff:
  "countEdgesAndNodes f = Inr (e, k) \<longleftrightarrow>
     (\<forall>n \<in> set (preorder f). resolvable n) \<and> 2 * decisionPoints f \<le> INT_MAX \<and>
     e = 2 * decisionPoints f \<and> k = decisionPoints f"
proof (cases "forEachCursor classifyCursor (preorder f) \<lparr>edges = 0, nodes = 0\<rparr>")
  case (Inl err)
  then have "\<not> ((\<forall>n \<in> set (preorder f). resolvable n) \<and> 2 * decisionPoints f \<le> INT_MAX)"
    using forEach_from_zero[of f "\<lparr>edges = 2 * decisionPoints f, nodes = decisionPoints f\<rparr>"]
    by simp
  then show ?thesis
    using Inl by (auto simp: countEdgesAndNodes_def countEdgesAndNodesCallback_preorder)
next
  case (Inr s')
  then have "(\<forall>n \<in> set (preorder f). resolvable n) \<and> 2 * decisionPoints f \<le> INT_MAX \<and>
     s' = \<lparr>edges = 2 * decisionPoints f, nodes = decisionPoints f\<rparr>"
    using forEach_from_zero[of f s'] by simp
  then show ?thesis
    using Inr by (auto simp: countEdgesAndNodes_def countEdgesAndNodesCallback_preorder)
qed

lemma computeCyclomaticComplexity_iff:
  "computeCyclomaticComplexity f = Inr c \<longleftrightarrow>
     (\<forall>n \<in> set (preorder f). resolvable n) \<and> 2 * decisionPoints f \<le> INT_MAX \<and>
     c = decisionPoints f + 1"
proof (cases "countEdgesAndNodes f")
  case (Inl e)
  then have "\<not> ((\<forall>n \<in> set (preorder f). resolvable n) \<and> 2 * decisionPoints f \<le> INT_MAX)"
    using countEdgesAndNodes_iff[of f "2 * decisionPoints f" "decisionPoints f"] by auto
  then show ?thesis using Inl by (auto simp: computeCyclomaticComplexity_def)
next
  case (Inr counts)
  obtain e k where counts: "counts = (e, k)" by (cases counts)
  have facts: "(\<forall>n \<in> set (preorder f). resolvable n)" "2 * decisionPoints f \<le> INT_MAX"
    "e = 2 * decisionPoints f" "k = decisionPoints f"
    using Inr counts countEdgesAndNodes_iff[of f e k] by auto
  have nonneg: "0 \<le> decisionPoints f" by (simp add: decisionPoints_def countOf_nonneg)
  have a1: "int_add k 1 = Inr (decisionPoints f + 1)"
    using facts nonneg by (simp add: int_add_def INT_MAX_def INT_MIN_def)
  have a2: "int_sub e (decisionPoints f + 1) = Inr (decisionPoints f - 1)"
    using facts nonneg by (simp add: int_sub_def INT_MAX_def INT_MIN_def)
  have a3: "int_add (decisionPoints f - 1) 2 = Inr (decisionPoints f + 1)"
    using facts nonneg by (simp add: int_add_def INT_MAX_def INT_MIN_def)
  have "computeCyclomaticComplexity f = Inr (decisionPoints f + 1)"
    using Inr counts a1 a2 a3 by (simp add: computeCyclomaticComplexity_def)
  then show ?thesis using facts by auto
qed

section \<open>The driver as a loop over the root's children\<close>

lemma visitChildren_forEach:
  "visitChildren root_cursor w = forEachCursor reportStep (cursorChildren root_cursor) w"
  unfolding visitChildren_def
  by (rule clang_visitChildren_Continue)
     (auto simp: visitChildren_callback_def reportStep_def split: sum.splits)

lemma forEach_reportStep_iff:
  "forEachCursor reportStep cs (w\<lparr>output_cy := Some old\<rparr>) = Inr w' \<longleftrightarrow>
     (\<exists>ks. list_all2 (\<lambda>f k. computeCyclomaticComplexity f = Inr k) (filter isFunctionDecl cs) ks \<and>
           w' = w\<lparr>output_cy := Some (old @ reportOf (filter isFunctionDecl cs) ks)\<rparr>)"
proof (induction cs arbitrary: old)
  case Nil
  then show ?case by (auto simp: reportOf_def)
next
  case (Cons c cs)
  show ?case
  proof (cases "isFunctionDecl c")
    case False
    then have "reportStep c (w\<lparr>output_cy := Some old\<rparr>) = Inr (w\<lparr>output_cy := Some old\<rparr>)"
      by (simp add: reportStep_def isFunctionDecl_def)
    then show ?thesis using False Cons.IH[of old] by simp
  next
    case fn: True
    show ?thesis
    proof (cases "computeCyclomaticComplexity c")
      case (Inl e)
      then have "reportStep c (w\<lparr>output_cy := Some old\<rparr>) = Inl e"
        using fn by (simp add: reportStep_def isFunctionDecl_def)
      then show ?thesis using fn Inl by (auto simp: list_all2_Cons1)
    next
      case (Inr k)
      then have step: "reportStep c (w\<lparr>output_cy := Some old\<rparr>) =
                   Inr (w\<lparr>output_cy := Some (old @ reportLine c k)\<rparr>)"
        using fn by (simp add: reportStep_def appendOutput_def isFunctionDecl_def)
      show ?thesis
        using fn Inr step Cons.IH[of "old @ reportLine c k"]
        by (auto simp: list_all2_Cons1 reportOf_def)
    qed
  qed
qed

lemma main_success_iff:
  assumes "clang_parseTranslationUnit2 code = (CXError_Success, root_cursor)"
  shows "main clang_parseTranslationUnit2 code w = Inr (status, w') \<longleftrightarrow>
           status = 0 \<and>
           (\<exists>ks. list_all2 (\<lambda>f k. computeCyclomaticComplexity f = Inr k)
                   (topLevelFunctions root_cursor) ks \<and>
                 w' = w\<lparr>output_cy := Some (reportOf (topLevelFunctions root_cursor) ks)\<rparr>)"
proof -
  have p: "parseTranslationUnit clang_parseTranslationUnit2 code (w\<lparr>output_cy := Some []\<rparr>)
             = Inr root_cursor"
    using assms by (simp add: parseTranslationUnit_def)
  show ?thesis
    using forEach_reportStep_iff[where cs = "cursorChildren root_cursor" and w = w
                                   and old = "[]" and w' = w']
    by (cases "forEachCursor reportStep (cursorChildren root_cursor) (w\<lparr>output_cy := Some []\<rparr>)")
       (auto simp: main_def p visitChildren_forEach topLevelFunctions_def)
qed

lemma main_failure:
  assumes "fst (clang_parseTranslationUnit2 code) \<noteq> CXError_Success"
  shows "main clang_parseTranslationUnit2 code w =
           Inr (1, w\<lparr>output_cy := Some [],
                      cerr := cerr w @ ''Error: Unable to parse translation unit.'' @ [CHR 0x0A]\<rparr>)"
  using assms
  by (cases "clang_parseTranslationUnit2 code") (simp add: main_def parseTranslationUnit_def)

section \<open>Claims about the operator resolver\<close>

text \<open>
  C4: for a node whose first child \<open>l\<close> has fewer tokens than the node itself,
  \<open>getFirstChild\<close> finds \<open>l\<close> and \<open>getBinaryOperator\<close> returns the token of the
  node's extent at index \<open>length (cursorTokens l)\<close>. Whenever the left operand's tokens
  are a prefix of the expression's, this is the token that follows them. The node's kind
  plays no part, so this holds of every binary operator.
\<close>

theorem getBinaryOperator_token_after_left_operand:
  assumes "cursorChildren n = l # rest"
      and "length (cursorTokens l) < length (cursorTokens n)"
  shows "getFirstChild n = Some l \<and>
         getBinaryOperator n = Inr (cursorTokens n ! length (cursorTokens l)) \<and>
         (\<forall>operator right. cursorTokens n = cursorTokens l @ operator # right \<longrightarrow>
            getBinaryOperator n = Inr operator)"
  using assms getFirstChild_Cons[OF assms(1)]
  by (auto simp: getBinaryOperator_def tokenizeExtent_def Let_def)

theorem getBinaryOperator_token_after_left_operand_witness:
  "cursorChildren x_plus_1 = x_operand # [Cursor (CXCursor_Other 106) 1 [] [''1''] []] \<and>
   length (cursorTokens x_operand) < length (cursorTokens x_plus_1) \<and>
   getFirstChild x_plus_1 = Some x_operand \<and>
   getBinaryOperator x_plus_1 = Inr ''+''"
  using getBinaryOperator_token_after_left_operand
          [of x_plus_1 x_operand "[Cursor (CXCursor_Other 106) 1 [] [''1''] []]"]
  by (simp add: x_plus_1_def x_operand_def)

text \<open>
  C3: \<open>getBinaryOperator\<close> reads out of range exactly when the first child's extent
  has at least as many tokens as the node's own; nothing in it or in its caller checks the
  index. A node without children has no first child, the left operand then counts zero
  tokens, and the read is out of range when the node has no token either (otherwise the
  node's first token is returned). The failure of a binary operator ends the traversal
  that meets it. \<open>degenerate_operator\<close> is such an input, and the function around it
  gets no complexity.
\<close>

theorem getBinaryOperator_reads_out_of_range:
  "(getBinaryOperator n = Inl IndexOutOfRange \<longleftrightarrow>
      length (cursorTokens n) \<le> length (tokenizeExtent (getFirstChild n))) \<and>
   (cursorChildren n = [] \<longrightarrow>
      getFirstChild n = None \<and>
      getBinaryOperator n =
        (case cursorTokens n of [] \<Rightarrow> Inl IndexOutOfRange | t # ts \<Rightarrow> Inr t)) \<and>
   (cursorKind n = CXCursor_BinaryOperator \<and> getBinaryOperator n = Inl e \<longrightarrow>
      countEdgesAndNodesCallback n counter = Inl e) \<and>
   cursorKind degenerate_operator = CXCursor_BinaryOperator \<and>
   getFirstChild degenerate_operator = None \<and>
   getBinaryOperator degenerate_operator = Inl IndexOutOfRange \<and>
   computeCyclomaticComplexity degenerate_function = Inl IndexOutOfRange"
proof -
  have a: "getBinaryOperator n = Inl IndexOutOfRange \<longleftrightarrow>
      length (cursorTokens n) \<le> length (tokenizeExtent (getFirstChild n))"
    by (simp add: getBinaryOperator_Inl)
  have b: "cursorChildren n = [] \<longrightarrow>
      getFirstChild n = None \<and>
      getBinaryOperator n =
        (case cursorTokens n of [] \<Rightarrow> Inl IndexOutOfRange | t # ts \<Rightarrow> Inr t)"
    by (auto simp: getFirstChild_Nil getBinaryOperator_def tokenizeExtent_def split: list.splits)
  have c: "cursorKind n = CXCursor_BinaryOperator \<and> getBinaryOperator n = Inl e \<longrightarrow>
      countEdgesAndNodesCallback n counter = Inl e"
    by (auto intro!: classifyCursor_first simp: classifyCursor_def decision_kinds_def)
  have d: "cursorKind degenerate_operator = CXCursor_BinaryOperator"
    "getFirstChild degenerate_operator = None"
    "getBinaryOperator degenerate_operator = Inl IndexOutOfRange"
    "computeCyclomaticComplexity degenerate_function = Inl IndexOutOfRange"
    by code_simp+
  show ?thesis using a b c d by blast
qed

theorem getBinaryOperator_reads_out_of_range_witness:
  "cursorChildren degenerate_operator = [] \<and>
   cursorKind degenerate_operator = CXCursor_BinaryOperator \<and>
   length (cursorTokens degenerate_operator)
     \<le> length (tokenizeExtent (getFirstChild degenerate_operator)) \<and>
   getBinaryOperator degenerate_operator = Inl IndexOutOfRange \<and>
   countEdgesAndNodesCallback degenerate_operator \<lparr>edges = 0, nodes = 0\<rparr> = Inl IndexOutOfRange"
  using getBinaryOperator_reads_out_of_range
          [of degenerate_operator IndexOutOfRange "\<lparr>edges = 0, nodes = 0\<rparr>"]
  by (simp add: degenerate_operator_def)

section \<open>Claims about the classifier and the traversal\<close>

text \<open>
  C5: a binary operator that \<open>getBinaryOperator\<close> resolves to a symbol other than
  \<open>&&\<close> and \<open>||\<close> leaves the counter as it was, and is no decision point of the
  complexity formula. The function \<open>int f(int x){ return x + 1; }\<close> gets complexity 1.
\<close>

theorem other_binary_operator_adds_nothing:
  assumes "cursorKind n = CXCursor_BinaryOperator"
      and "getBinaryOperator n = Inr operatorSymbol"
      and "operatorSymbol \<noteq> ''&&''" and "operatorSymbol \<noteq> ''||''"
  shows "classifyCursor n counter = Inr counter \<and> \<not> decisionPoint n"
  using assms
  by (simp add: classifyCursor_def decision_kinds_def decisionPoint_def simpleDecisionPoint_def
                logicalOperator_def)

theorem other_binary_operator_adds_nothing_witness:
  "cursorKind x_plus_1 = CXCursor_BinaryOperator \<and> getBinaryOperator x_plus_1 = Inr ''+'' \<and>
   classifyCursor x_plus_1 \<lparr>edges = 4, nodes = 2\<rparr> = Inr \<lparr>edges = 4, nodes = 2\<rparr> \<and>
   computeCyclomaticComplexity return_x_plus_1 = Inr 1"
proof -
  have k: "cursorKind x_plus_1 = CXCursor_BinaryOperator"
    by (simp add: x_plus_1_def)
  have sym: "getBinaryOperator x_plus_1 = Inr ''+''"
    by code_simp
  have "classifyCursor x_plus_1 \<lparr>edges = 4, nodes = 2\<rparr> = Inr \<lparr>edges = 4, nodes = 2\<rparr>"
    using other_binary_operator_adds_nothing[OF k sym] by simp
  moreover have "computeCyclomaticComplexity return_x_plus_1 = Inr 1"
    by code_simp
  ultimately show ?thesis using k sym by simp
qed

text \<open>
  C10: one classification either leaves the counter alone or adds exactly 2 to
  \<open>edges\<close> and 1 to \<open>nodes\<close>; after any number \<open>i\<close> of cursors of a function's
  traversal, started from \<open>(0, 0)\<close>, \<open>edges\<close> is twice \<open>nodes\<close>; and a complexity that
  is computed is \<open>nodes + 1\<close> for a final tally \<open>(2 * nodes, nodes)\<close>.
\<close>

theorem tally_edges_twice_nodes:
  "(classifyCursor n counter = Inr counter' \<longrightarrow>
      counter' = counter \<or>
      counter' = counter\<lparr>edges := edges counter + 2, nodes := nodes counter + 1\<rparr>) \<and>
   (forEachCursor classifyCursor (take i (preorder f)) \<lparr>edges = 0, nodes = 0\<rparr> = Inr tally \<longrightarrow>
      edges tally = 2 * nodes tally) \<and>
   (computeCyclomaticComplexity f = Inr complexity \<longrightarrow>
      (\<exists>k. countEdgesAndNodes f = Inr (2 * k, k) \<and> complexity = k + 1))"
proof -
  have a: "classifyCursor n counter = Inr counter' \<longrightarrow>
      counter' = counter \<or>
      counter' = counter\<lparr>edges := edges counter + 2, nodes := nodes counter + 1\<rparr>"
    using classifyCursor_step by blast
  have b: "forEachCursor classifyCursor (take i (preorder f)) \<lparr>edges = 0, nodes = 0\<rparr> = Inr tally
      \<longrightarrow> edges tally = 2 * nodes tally"
    using forEach_classify_invariant[of "take i (preorder f)" "\<lparr>edges = 0, nodes = 0\<rparr>" tally]
    by simp
  have c: "computeCyclomaticComplexity f = Inr complexity \<longrightarrow>
      (\<exists>k. countEdgesAndNodes f = Inr (2 * k, k) \<and> complexity = k + 1)"
    using computeCyclomaticComplexity_iff[of f complexity]
          countEdgesAndNodes_iff[of f "2 * decisionPoints f" "decisionPoints f"]
    by auto
  show ?thesis using a b c by blast
qed

theorem tally_edges_twice_nodes_witness:
  "classifyCursor nested_if \<lparr>edges = 0, nodes = 0\<rparr> = Inr \<lparr>edges = 0, nodes = 0\<rparr> \<and>
   classifyCursor inner_if \<lparr>edges = 2, nodes = 1\<rparr> = Inr \<lparr>edges = 4, nodes = 2\<rparr> \<and>
   forEachCursor classifyCursor (take 5 (preorder nested_if)) \<lparr>edges = 0, nodes = 0\<rparr>
     = Inr \<lparr>edges = 2, nodes = 1\<rparr> \<and>
   countEdgesAndNodes nested_if = Inr (4, 2) \<and>
   computeCyclomaticComplexity nested_if = Inr 3"
proof -
  have 1: "classifyCursor nested_if \<lparr>edges = 0, nodes = 0\<rparr> = Inr \<lparr>edges = 0, nodes = 0\<rparr>"
    by code_simp
  have 2: "forEachCursor classifyCursor (take 5 (preorder nested_if)) \<lparr>edges = 0, nodes = 0\<rparr>
     = Inr \<lparr>edges = 2, nodes = 1\<rparr>"
    by code_simp
  have 3: "computeCyclomaticComplexity nested_if = Inr 3"
    by code_simp
  have 4: "classifyCursor inner_if \<lparr>edges = 2, nodes = 1\<rparr> = Inr \<lparr>edges = 4, nodes = 2\<rparr>"
    by code_simp
  show ?thesis
    using tally_edges_twice_nodes
            [of nested_if "\<lparr>edges = 0, nodes = 0\<rparr>" "\<lparr>edges = 0, nodes = 0\<rparr>"
                5 nested_if "\<lparr>edges = 2, nodes = 1\<rparr>" 3] 1 2 3 4
    by auto
qed

text \<open>
  C6: the pre-order listing of a cursor is the cursor followed by the listings of its
  children from left to right, whatever their kinds; \<open>countEdgesAndNodesCallback\<close>
  classifies the cursors of that listing one after the other, each before its
  descendants, and answers \<open>Continue\<close>: it stops early on undefined behaviour only.
  The function \<open>void g(int a, int b){ if (a) { if (b) {} } }\<close> gets complexity 3.
\<close>

theorem traversal_is_preorder_without_early_exit:
  "preorder n = n # concat (map preorder (cursorChildren n)) \<and>
   countEdgesAndNodesCallback n counter =
     (case forEachCursor classifyCursor (preorder n) counter of
        Inl e \<Rightarrow> Inl e
      | Inr counter' \<Rightarrow> Inr (CXChildVisit_Continue, counter')) \<and>
   computeCyclomaticComplexity nested_if = Inr 3"
proof -
  have "computeCyclomaticComplexity nested_if = Inr 3"
    by code_simp
  then show ?thesis
    using countEdgesAndNodesCallback_preorder[of n counter] preorder_unfold[of n]
    by (simp add: descendants_def)
qed

theorem traversal_is_preorder_without_early_exit_witness:
  "map cursorKind (preorder x_plus_1) =
     [CXCursor_BinaryOperator, CXCursor_Other 100, CXCursor_Other 101, CXCursor_Other 106] \<and>
   countEdgesAndNodesCallback nested_if \<lparr>edges = 0, nodes = 0\<rparr> =
     Inr (CXChildVisit_Continue, \<lparr>edges = 4, nodes = 2\<rparr>)"
proof -
  have l: "map cursorKind (preorder x_plus_1) =
     [CXCursor_BinaryOperator, CXCursor_Other 100, CXCursor_Other 101, CXCursor_Other 106]"
    by code_simp
  have f: "forEachCursor classifyCursor (preorder nested_if) \<lparr>edges = 0, nodes = 0\<rparr> =
             Inr \<lparr>edges = 4, nodes = 2\<rparr>"
    by code_simp
  show ?thesis
    using traversal_is_preorder_without_early_exit[of nested_if "\<lparr>edges = 0, nodes = 0\<rparr>"] l f
    by simp
qed

section \<open>Claims about the complexity of a function\<close>

text \<open>
  C1: \<open>computeCyclomaticComplexity\<close> returns a complexity exactly when every binary
  operator below the function is resolvable and the counters stay within \<open>int\<close>, and
  that complexity is 1 plus the number of simple decision points plus the number of binary
  operators resolved to \<open>&&\<close> or \<open>||\<close> in the function's subtree.
\<close>

theorem complexity_formula:
  "computeCyclomaticComplexity f = Inr complexity \<longleftrightarrow>
     (\<forall>n \<in> set (preorder f). resolvable n) \<and>
     2 * (countOf simpleDecisionPoint (preorder f) + countOf logicalOperator (preorder f))
       \<le> INT_MAX \<and>
     complexity =
       1 + countOf simpleDecisionPoint (preorder f) + countOf logicalOperator (preorder f)"
  using computeCyclomaticComplexity_iff[of f complexity]
  by (auto simp: decisionPoints_def countOf_decisionPoint)

theorem complexity_formula_witness:
  "list_all resolvable (preorder short_circuit) \<and>
   countOf simpleDecisionPoint (preorder short_circuit) = 1 \<and>
   countOf logicalOperator (preorder short_circuit) = 2 \<and>
   computeCyclomaticComplexity short_circuit = Inr 4"
proof -
  have r: "list_all resolvable (preorder short_circuit)"
    by code_simp
  have s: "countOf simpleDecisionPoint (preorder short_circuit) = 1"
    by code_simp
  have l: "countOf logicalOperator (preorder short_circuit) = 2"
    by code_simp
  show ?thesis
    using complexity_formula[of short_circuit 4] r s l by (simp add: INT_MAX_def list_all_iff)
qed

text \<open>
  C7: a complexity that is computed is at least 1; one is computed for every function
  whose binary operators are resolvable and whose counters stay within \<open>int\<close>; and a
  function without any decision point in its subtree gets exactly 1.
\<close>

theorem complexity_at_least_one:
  "(computeCyclomaticComplexity f = Inr complexity \<longrightarrow> 1 \<le> complexity) \<and>
   ((\<forall>n \<in> set (preorder f). resolvable n) \<and> 2 * decisionPoints f \<le> INT_MAX \<longrightarrow>
      (\<exists>c. computeCyclomaticComplexity f = Inr c \<and> 1 \<le> c)) \<and>
   ((\<forall>n \<in> set (preorder f). resolvable n \<and> \<not> decisionPoint n) \<longrightarrow>
      computeCyclomaticComplexity f = Inr 1)"
proof -
  have nonneg: "0 \<le> decisionPoints f"
    by (simp add: decisionPoints_def countOf_nonneg)
  have zero: "decisionPoints f = 0" if "\<forall>n \<in> set (preorder f). \<not> decisionPoint n"
    using that by (simp add: decisionPoints_def countOf_def)
  have "0 \<le> INT_MAX" by (simp add: INT_MAX_def)
  then show ?thesis
    using nonneg zero computeCyclomaticComplexity_iff[of f] by auto
qed

theorem complexity_at_least_one_witness:
  "list_all (\<lambda>n. resolvable n \<and> \<not> decisionPoint n) (preorder return_x_plus_1) \<and>
   computeCyclomaticComplexity return_x_plus_1 = Inr 1 \<and>
   list_all resolvable (preorder short_circuit) \<and>
   2 * decisionPoints short_circuit \<le> INT_MAX \<and>
   computeCyclomaticComplexity short_circuit = Inr 4 \<and> (1::int) \<le> 4"
proof -
  have z: "list_all (\<lambda>n. resolvable n \<and> \<not> decisionPoint n) (preorder return_x_plus_1)"
    by code_simp
  have r: "list_all resolvable (preorder short_circuit)"
    by code_simp
  have d: "decisionPoints short_circuit = 3"
    by code_simp
  have c: "computeCyclomaticComplexity short_circuit = Inr 4"
    by code_simp
  show ?thesis
    using complexity_at_least_one[of return_x_plus_1 1]
          complexity_at_least_one[of short_circuit 4] z r d c
    by (simp add: INT_MAX_def list_all_iff)
qed

section \<open>Claims about the driver and the process\<close>

text \<open>
  C2, as the program has it: \<open>visitChildren_callback\<close> answers \<open>Continue\<close>, so the walk
  of \<open>visitChildren\<close> stays on the direct children of the root. When parsing succeeds, a
  run that ends has status 0 and leaves in \<open>output.cy\<close> one record for each function
  declaration cursor among the root's direct children, in their order, and nothing else;
  the run ends whenever each of these cursors has a complexity.
\<close>

theorem driver_reports_children_of_root:
  assumes "clang_parseTranslationUnit2 code = (CXError_Success, root_cursor)"
  shows "main clang_parseTranslationUnit2 code w = Inr (status, w') \<longleftrightarrow>
           status = 0 \<and>
           (\<exists>ks. length ks = length (topLevelFunctions root_cursor) \<and>
                 list_all2 (\<lambda>f k. computeCyclomaticComplexity f = Inr k)
                   (topLevelFunctions root_cursor) ks \<and>
                 w' = w\<lparr>output_cy := Some (reportOf (topLevelFunctions root_cursor) ks)\<rparr>)"
proof -
  have same_length:
    "(\<exists>ks. length ks = length (topLevelFunctions root_cursor) \<and>
           list_all2 (\<lambda>f k. computeCyclomaticComplexity f = Inr k)
             (topLevelFunctions root_cursor) ks \<and>
           w' = w\<lparr>output_cy := Some (reportOf (topLevelFunctions root_cursor) ks)\<rparr>) \<longleftrightarrow>
     (\<exists>ks. list_all2 (\<lambda>f k. computeCyclomaticComplexity f = Inr k)
             (topLevelFunctions root_cursor) ks \<and>
           w' = w\<lparr>output_cy := Some (reportOf (topLevelFunctions root_cursor) ks)\<rparr>)"
    by (metis list_all2_lengthD)
  show ?thesis
    unfolding same_length
    by (rule main_success_iff[of clang_parseTranslationUnit2 code root_cursor w status w',
                              OF assms])
qed

theorem driver_reports_children_of_root_witness:
  "two_functions_frontend [] = (CXError_Success, two_functions) \<and>
   topLevelFunctions two_functions = [return_x_plus_1, short_circuit] \<and>
   main two_functions_frontend [] \<lparr>output_cy = None, cerr = []\<rparr> =
     Inr (0, \<lparr>output_cy = Some (reportOf [return_x_plus_1, short_circuit] [1, 4]), cerr = []\<rparr>)"
proof -
  have p: "two_functions_frontend [] = (CXError_Success, two_functions)"
    by (simp add: two_functions_frontend_def)
  have t: "topLevelFunctions two_functions = [return_x_plus_1, short_circuit]"
    by code_simp
  have c: "computeCyclomaticComplexity return_x_plus_1 = Inr 1"
          "computeCyclomaticComplexity short_circuit = Inr 4"
    by code_simp+
  have "\<exists>ks. length ks = length (topLevelFunctions two_functions) \<and>
          list_all2 (\<lambda>f k. computeCyclomaticComplexity f = Inr k)
            (topLevelFunctions two_functions) ks \<and>
          \<lparr>output_cy = Some (reportOf [return_x_plus_1, short_circuit] [1, 4]), cerr = []\<rparr> =
          \<lparr>output_cy = None, cerr = []\<rparr>
            \<lparr>output_cy := Some (reportOf (topLevelFunctions two_functions) ks)\<rparr>"
    by (rule exI[of _ "[1, 4]"]) (simp add: t c)
  then have "main two_functions_frontend [] \<lparr>output_cy = None, cerr = []\<rparr> =
     Inr (0, \<lparr>output_cy = Some (reportOf [return_x_plus_1, short_circuit] [1, 4]), cerr = []\<rparr>)"
    using driver_reports_children_of_root
            [of two_functions_frontend "[]" two_functions "\<lparr>output_cy = None, cerr = []\<rparr>" 0
                "\<lparr>output_cy = Some (reportOf [return_x_plus_1, short_circuit] [1, 4]), cerr = []\<rparr>",
             OF p]
    by simp
  then show ?thesis using p t by simp
qed

text \<open>
  C2 as stated fails on a function declaration cursor below the top level. The tree of
  \<open>void f(void) { int g(int); }\<close> holds the two function declaration cursors \<open>f\<close> and
  \<open>g\<close>; the run ends with the single record of \<open>f\<close> in the log.
\<close>

theorem nested_function_is_not_reported:
  "main block_scope_frontend ''void f(void) { int g(int); }'' \<lparr>output_cy = None, cerr = []\<rparr> =
     Inr (0, \<lparr>output_cy = Some (''1 f 1'' @ [CHR 0x0A]), cerr = []\<rparr>) \<and>
   map cursorSpelling (filter isFunctionDecl (preorder block_scope_declaration)) = [''f'', ''g''] \<and>
   length (filter isFunctionDecl (preorder block_scope_declaration)) = 2 \<and>
   length (topLevelFunctions block_scope_declaration) = 1"
  by code_simp

text \<open>
  C8: when the frontend's error code is not \<open>CXError_Success\<close>, the process writes one
  line to the error channel and exits with status 1, and \<open>output.cy\<close> exists and is
  empty, whatever it held before.
\<close>

theorem parse_failure_exits_with_empty_log:
  assumes "fst (clang_parseTranslationUnit2 code) \<noteq> CXError_Success"
  shows "main clang_parseTranslationUnit2 code w =
           Inr (1, w\<lparr>output_cy := Some [],
                      cerr := cerr w @ ''Error: Unable to parse translation unit.'' @ [CHR 0x0A]\<rparr>)"
  using assms by (rule main_failure)

theorem parse_failure_exits_with_empty_log_witness:
  "fst (failing_frontend ''int f('') \<noteq> CXError_Success \<and>
   main failing_frontend ''int f('' \<lparr>output_cy = Some ''7 old 2'', cerr = []\<rparr> =
     Inr (1, \<lparr>output_cy = Some [],
              cerr = ''Error: Unable to parse translation unit.'' @ [CHR 0x0A]\<rparr>)"
  using parse_failure_exits_with_empty_log
          [of failing_frontend "''int f(''" "\<lparr>output_cy = Some ''7 old 2'', cerr = []\<rparr>"]
  by (simp add: failing_frontend_def)

text \<open>
  C9: if a run on some input ends with a status and a log, then a run on the same input
  from any other world (any earlier content of \<open>output.cy\<close> and of the error channel)
  ends with the same status and the same log.
\<close>

theorem log_is_a_function_of_the_input:
  assumes "main clang_parseTranslationUnit2 code w1 = Inr (status, w1')"
  shows "\<exists>w2'. main clang_parseTranslationUnit2 code w2 = Inr (status, w2') \<and>
               output_cy w2' = output_cy w1'"
proof (cases "clang_parseTranslationUnit2 code")
  case (Pair err root_cursor)
  show ?thesis
  proof (cases "err = CXError_Success")
    case False
    then have "fst (clang_parseTranslationUnit2 code) \<noteq> CXError_Success"
      using Pair by simp
    then show ?thesis
      using assms main_failure[of clang_parseTranslationUnit2 code] by auto
  next
    case True
    then have p: "clang_parseTranslationUnit2 code = (CXError_Success, root_cursor)"
      using Pair by simp
    from assms obtain ks where
      ks: "status = 0"
          "list_all2 (\<lambda>f k. computeCyclomaticComplexity f = Inr k)
             (topLevelFunctions root_cursor) ks"
          "w1' = w1\<lparr>output_cy := Some (reportOf (topLevelFunctions root_cursor) ks)\<rparr>"
      using main_success_iff[of clang_parseTranslationUnit2 code root_cursor w1 status w1', OF p]
      by auto
    have "main clang_parseTranslationUnit2 code w2 =
            Inr (status, w2\<lparr>output_cy := Some (reportOf (topLevelFunctions root_cursor) ks)\<rparr>)"
      using main_success_iff[of clang_parseTranslationUnit2 code root_cursor w2 status
              "w2\<lparr>output_cy := Some (reportOf (topLevelFunctions root_cursor) ks)\<rparr>", OF p]
            ks(1,2)
      by auto
    then show ?thesis using ks(3) by simp
  qed
qed

theorem log_is_a_function_of_the_input_witness:
  "main two_functions_frontend [] \<lparr>output_cy = None, cerr = []\<rparr> =
     Inr (0, \<lparr>output_cy = Some (''1 f 1'' @ [CHR 0x0A] @ ''3 h 4'' @ [CHR 0x0A]), cerr = []\<rparr>) \<and>
   (\<exists>w2'. main two_functions_frontend [] \<lparr>output_cy = Some ''9 stale 9'', cerr = ''x''\<rparr>
            = Inr (0, w2') \<and>
          output_cy w2' = Some (''1 f 1'' @ [CHR 0x0A] @ ''3 h 4'' @ [CHR 0x0A]))"
proof -
  have run: "main two_functions_frontend [] \<lparr>output_cy = None, cerr = []\<rparr> =
     Inr (0, \<lparr>output_cy = Some (''1 f 1'' @ [CHR 0x0A] @ ''3 h 4'' @ [CHR 0x0A]), cerr = []\<rparr>)"
    by code_simp
  show ?thesis
    using log_is_a_function_of_the_input
            [OF run, of "\<lparr>output_cy = Some ''9 stale 9'', cerr = ''x''\<rparr>"] run
    by simp
qed

end
